theory Spec2Isabelle
  imports Complex_Main "HOL-Library.List_Lexorder" "HOL-Library.AList"
begin

section \<open>The capture channel: \<^verbatim>\<open>CameraThread\<close>\<close>

text \<open>
  A \<^verbatim>\<open>queue.Queue\<close> is modelled by its bound and its contents, oldest item first.
  Every method of \<^verbatim>\<open>queue.Queue\<close> runs under the queue's own mutex, so a run of
  the two threads is a sequence of whole method calls.
\<close>

record 'f queue =
  maxsize :: nat
  items :: "'f list"

text \<open>
  \<^verbatim>\<open>Queue.put(item, block)\<close>: with a positive bound and a full queue it raises
  \<^verbatim>\<open>queue.Full\<close> when \<^verbatim>\<open>block\<close> is false and waits for a free slot otherwise.
\<close>

datatype 'f put_result = Put_ok "'f queue" | Put_Full | Put_blocks

definition put :: "'f queue \<Rightarrow> 'f \<Rightarrow> bool \<Rightarrow> 'f put_result" where
  "put q item block =
     (if 0 < maxsize q \<and> maxsize q \<le> length (items q)
      then (if block then Put_blocks else Put_Full)
      else Put_ok (q\<lparr>items := items q @ [item]\<rparr>))"

definition put_nowait :: "'f queue \<Rightarrow> 'f \<Rightarrow> 'f put_result" where
  "put_nowait q item = put q item False"

text \<open>\<^verbatim>\<open>Queue.get_nowait()\<close>: \<open>None\<close> stands for raising \<^verbatim>\<open>queue.Empty\<close>.\<close>

definition get_nowait :: "'f queue \<Rightarrow> ('f \<times> 'f queue) option" where
  "get_nowait q =
     (case items q of
        [] \<Rightarrow> None
      | x # xs \<Rightarrow> Some (x, q\<lparr>items := xs\<rparr>))"

definition qempty :: "'f queue \<Rightarrow> bool" where
  "qempty q = (items q = [])"

definition queue_new :: "nat \<Rightarrow> 'f queue" where
  "queue_new n = \<lparr>maxsize = n, items = []\<rparr>"

text \<open>
  A frame is a numpy array of shape \<^verbatim>\<open>(h, w, 3)\<close>; \<open>pixel_bytes\<close> is what
  \<^verbatim>\<open>tobytes()\<close> returns.
\<close>

record frame =
  shape_h :: nat
  shape_w :: nat
  pixel_bytes :: "nat list"

text \<open>
  \<^verbatim>\<open>CameraThread.__init__\<close>: \<^verbatim>\<open>running = False\<close> and
  \<^verbatim>\<open>frame_queue = queue.Queue(maxsize=2)\<close>. The device handle and the unused lock
  are left out.
\<close>

record camera_thread =
  running :: bool
  frame_queue :: "frame queue"

definition camera_thread_init :: camera_thread where
  "camera_thread_init = \<lparr>running = False, frame_queue = queue_new 2\<rparr>"

text \<open>An example frame: \<open>h\<close> rows of \<open>w\<close> pixels, every byte \<open>b\<close>.\<close>

definition solid :: "nat \<Rightarrow> nat \<Rightarrow> nat \<Rightarrow> frame" where
  "solid h w b = \<lparr>shape_h = h, shape_w = w, pixel_bytes = replicate (h * w * 3) b\<rparr>"

text \<open>
  One iteration of the loop of \<^verbatim>\<open>CameraThread.run\<close>. The argument is the outcome of
  \<^verbatim>\<open>camera.read()\<close>: \<open>None\<close> when \<^verbatim>\<open>ret\<close> is false (the loop sleeps 10 ms and
  goes on), \<open>Some frame_rgb\<close> for a frame, already converted to RGB.
  \<^verbatim>\<open>except queue.Full: pass\<close> leaves the queue as it was.
\<close>

definition run_iteration :: "'f option \<Rightarrow> 'f queue \<Rightarrow> 'f queue" where
  "run_iteration rd q =
     (case rd of
        None \<Rightarrow> q
      | Some frame_rgb \<Rightarrow>
          (case put_nowait q frame_rgb of
             Put_ok q' \<Rightarrow> q'
           | Put_Full \<Rightarrow> q
           | Put_blocks \<Rightarrow> q))"

text \<open>The worker producing the frames \<open>fs\<close> one after the other, nothing consumed between.\<close>

definition produce :: "'f list \<Rightarrow> 'f queue \<Rightarrow> 'f queue" where
  "produce fs q = fold (\<lambda>f. run_iteration (Some f)) fs q"

text \<open>
  \<^verbatim>\<open>CameraThread.get_frame\<close>: the loop \<^verbatim>\<open>while not self.frame_queue.empty()\<close> with
  the local variable \<^verbatim>\<open>frame\<close>; \<^verbatim>\<open>except queue.Empty: return None\<close> is the
  \<open>None\<close> branch of the call of \<^verbatim>\<open>get_nowait\<close>.
\<close>

function get_frame_loop :: "'f option \<Rightarrow> 'f queue \<Rightarrow> 'f option \<times> 'f queue" where
  "get_frame_loop frame q =
     (if qempty q then (frame, q)
      else (case get_nowait q of
              None \<Rightarrow> (None, q)
            | Some (x, q') \<Rightarrow> get_frame_loop (Some x) q'))"
  by pat_completeness auto
termination
  by (relation "measure (\<lambda>(frame, q). length (items q))")
     (auto simp: get_nowait_def split: list.splits)

declare get_frame_loop.simps [simp del]

definition get_frame :: "'f queue \<Rightarrow> 'f option \<times> 'f queue" where
  "get_frame q = get_frame_loop None q"

text \<open>
  The calls the two threads make on the shared queue: the worker's push of one frame,
  one \<^verbatim>\<open>get_nowait\<close> of the consumer (a raised \<^verbatim>\<open>queue.Empty\<close> changes nothing),
  the consumer's test \<^verbatim>\<open>empty()\<close>, and a whole uninterrupted \<^verbatim>\<open>get_frame\<close>.
\<close>

datatype 'f queue_call = Push 'f | Pop | Test_empty | Drain

fun do_call :: "'f queue_call \<Rightarrow> 'f queue \<Rightarrow> 'f queue" where
  "do_call (Push f) q = run_iteration (Some f) q"
| "do_call Pop q = (case get_nowait q of None \<Rightarrow> q | Some (x, q') \<Rightarrow> q')"
| "do_call Test_empty q = q"
| "do_call Drain q = snd (get_frame q)"

definition interleaving :: "'f queue_call list \<Rightarrow> 'f queue \<Rightarrow> 'f queue" where
  "interleaving cs q = fold do_call cs q"


section \<open>Python values\<close>

text \<open>
  A Python \<^verbatim>\<open>str\<close> is a sequence of code points, and \<^verbatim>\<open>len\<close>, slicing and the
  order of \<^verbatim>\<open>sorted\<close> count and compare code points: a string is a list of
  naturals, ordered lexicographically. \<open>lit\<close> writes a literal of the source.
  The code points named below are 39 (the single quote), 92 (the backslash),
  47 (the slash) and 10 (the newline).
\<close>

type_synonym pystr = "nat list"

definition lit :: "string \<Rightarrow> pystr" where
  "lit s = map of_char s"

text \<open>
  Arithmetic on a Python \<^verbatim>\<open>float\<close>, an IEEE 754 binary64: a float is the rational
  it denotes, and the result of an operation is the exact result rounded to the nearest
  double, a tie to the even significand. \<open>binade x\<close> is the \<open>e\<close> with
  \<open>2^e \<le> x < 2^(e+1)\<close> for a positive \<open>x\<close>; a double of that binade is a multiple of
  \<open>2^(e-52)\<close>. Overflow and subnormal numbers are not modelled: the operands here are
  sizes in pixels and their quotients.
\<close>

fun ilog2 :: "nat \<Rightarrow> nat" where
  "ilog2 n = (if n < 2 then 0 else Suc (ilog2 (n div 2)))"

declare ilog2.simps [simp del]

definition pow2 :: "int \<Rightarrow> rat" where
  "pow2 k = (if 0 \<le> k then 2 ^ nat k else 1 / 2 ^ nat (- k))"

definition binade :: "rat \<Rightarrow> int" where
  "binade x =
     (if 1 \<le> x then int (ilog2 (nat \<lfloor>x\<rfloor>))
      else - int (ilog2 (nat \<lceil>1 / x\<rceil> - 1)) - 1)"

definition round_positive :: "rat \<Rightarrow> rat" where
  "round_positive x =
     (let ulp = pow2 (binade x - 52);
          n = x / ulp;
          f = \<lfloor>n\<rfloor>;
          r = n - of_int f;
          m = (if r < 1 / 2 then f
               else if 1 / 2 < r then f + 1
               else if even f then f else f + 1)
      in of_int m * ulp)"

definition round_double :: "rat \<Rightarrow> rat" where
  "round_double x =
     (if x = 0 then 0
      else if x < 0 then - round_positive (- x)
      else round_positive x)"

text \<open>
  The values \<^verbatim>\<open>json.load\<close> returns and \<^verbatim>\<open>json.dump\<close> accepts. A number of the
  configuration is modelled by the decimal it is written as (\<^verbatim>\<open>0.3\<close> by \<open>3/10\<close>);
  no claim computes with one. A \<^verbatim>\<open>dict\<close> keeps its keys in insertion order: assigning to a key that is
  present keeps the key's place, a new key goes last, which is \<open>AList.update\<close>.
\<close>

datatype pyval =
    PNone
  | PBool bool
  | PNum rat
  | PStr pystr
  | PList "pyval list"
  | PDict "(pystr \<times> pyval) list"

type_synonym pydict = "(pystr \<times> pyval) list"

definition dict_setitem :: "pystr \<Rightarrow> pyval \<Rightarrow> pydict \<Rightarrow> pydict" where
  "dict_setitem k v d = AList.update k v d"

definition dict_get :: "pydict \<Rightarrow> pystr \<Rightarrow> pyval option" where
  "dict_get d k = map_of d k"

text \<open>\<^verbatim>\<open>d.update(other)\<close> for a dict \<^verbatim>\<open>other\<close>: every item of it is assigned, in order.\<close>

definition dict_update :: "pydict \<Rightarrow> pydict \<Rightarrow> pydict" where
  "dict_update d other = fold (\<lambda>(k, v). dict_setitem k v) other d"

section \<open>The configuration: \<^verbatim>\<open>Config\<close>\<close>

text \<open>
  What \<^verbatim>\<open>Config.load\<close> finds at \<^verbatim>\<open>CONFIG_FILE\<close>: no file
  (\<^verbatim>\<open>os.path.exists\<close> is false), a file that \<^verbatim>\<open>open\<close> or \<^verbatim>\<open>json.load\<close> raises on,
  or a document. The document is a JSON object, as \<^verbatim>\<open>_do_save\<close> writes it; a
  document whose top level is not an object is not modelled.
\<close>

datatype config_file = Missing | Unreadable | Document pydict

text \<open>
  The dictionary of \<^verbatim>\<open>Config.__init__\<close>; \<open>default_photos\<close> is the directory the
  constructor derives from the platform and the environment.
\<close>

definition default_data :: "pystr \<Rightarrow> pydict" where
  "default_data default_photos =
     [(lit ''photos_directory'', PStr default_photos),
      (lit ''guide_enabled'', PBool True),
      (lit ''guide_x'', PNum (1 / 2)),
      (lit ''guide_y'', PNum (1 / 2)),
      (lit ''guide_width'', PNum (3 / 10)),
      (lit ''guide_height'', PNum (2 / 5))]"

text \<open>
  \<^verbatim>\<open>Config.load\<close>, on the dictionary: the \<^verbatim>\<open>except\<close> clause prints the error and
  leaves \<^verbatim>\<open>self.data\<close> as it is.
\<close>

definition load :: "config_file \<Rightarrow> pydict \<Rightarrow> pydict" where
  "load f d =
     (case f of
        Missing \<Rightarrow> d
      | Unreadable \<Rightarrow> d
      | Document loaded \<Rightarrow> dict_update d loaded)"

record config =
  data :: pydict
  save_pending :: bool
  save_timer :: "nat option"

definition config_init :: "pystr \<Rightarrow> config_file \<Rightarrow> config" where
  "config_init default_photos f =
     \<lparr>data = load f (default_data default_photos), save_pending = False, save_timer = None\<rparr>"

text \<open>
  The configuration lives in a GLib main loop. The loop is modelled by a clock in
  milliseconds and its timeout sources, each a positive id with the time it is due;
  the only callback the program registers with \<^verbatim>\<open>timeout_add\<close> on this path is
  \<^verbatim>\<open>_do_save\<close>. \<open>saved\<close> logs every completed \<^verbatim>\<open>json.dump\<close> with its time;
  \<open>writable\<close> says whether \<^verbatim>\<open>open(CONFIG_FILE, 'w')\<close> succeeds.
\<close>

record world =
  cfg :: config
  clock :: nat
  sources :: "(nat \<times> nat) list"
  next_source :: nat
  disk :: config_file
  writable :: bool
  saved :: "(nat \<times> pydict) list"

definition world_init :: "pystr \<Rightarrow> config_file \<Rightarrow> world" where
  "world_init default_photos f =
     \<lparr>cfg = config_init default_photos f, clock = 0, sources = [], next_source = 1,
      disk = f, writable = True, saved = []\<rparr>"

definition timeout_add :: "nat \<Rightarrow> world \<Rightarrow> nat \<times> world" where
  "timeout_add interval w =
     (next_source w,
      w\<lparr>sources := sources w @ [(next_source w, clock w + interval)],
        next_source := next_source w + 1\<rparr>)"

definition source_remove :: "nat \<Rightarrow> world \<Rightarrow> world" where
  "source_remove i w = w\<lparr>sources := filter (\<lambda>(j, due). j \<noteq> i) (sources w)\<rparr>"

text \<open>
  \<^verbatim>\<open>Config._do_save\<close>. It returns \<^verbatim>\<open>False\<close> on both paths, so the loop drops the
  source after the call. When the write raises, \<^verbatim>\<open>_save_pending\<close> and
  \<^verbatim>\<open>_save_timer\<close> keep their values; the write is taken to raise in \<^verbatim>\<open>open\<close>,
  before the file is touched.
\<close>

definition do_save :: "world \<Rightarrow> world" where
  "do_save w =
     (if writable w
      then w\<lparr>disk := Document (data (cfg w)),
             saved := saved w @ [(clock w, data (cfg w))],
             cfg := (cfg w)\<lparr>save_pending := False, save_timer := None\<rparr>\<rparr>
      else w)"

text \<open>
  \<^verbatim>\<open>Config.save\<close>. The whole body stands under \<^verbatim>\<open>if not self._save_pending\<close>;
  \<^verbatim>\<open>if self._save_timer\<close> is false for \<^verbatim>\<open>None\<close> and for 0.
\<close>

definition save :: "world \<Rightarrow> world" where
  "save w =
     (if \<not> save_pending (cfg w)
      then
        (let w1 = w\<lparr>cfg := (cfg w)\<lparr>save_pending := True\<rparr>\<rparr>;
             w2 = (case save_timer (cfg w1) of
                     None \<Rightarrow> w1
                   | Some i \<Rightarrow> if i = 0 then w1 else source_remove i w1);
             (i, w3) = timeout_add 500 w2
         in w3\<lparr>cfg := (cfg w3)\<lparr>save_timer := Some i\<rparr>\<rparr>)
      else w)"

definition config_get :: "pystr \<Rightarrow> world \<Rightarrow> pyval option" where
  "config_get k w = dict_get (data (cfg w)) k"

definition config_set :: "pystr \<Rightarrow> pyval \<Rightarrow> world \<Rightarrow> world" where
  "config_set k v w = save (w\<lparr>cfg := (cfg w)\<lparr>data := dict_setitem k v (data (cfg w))\<rparr>\<rparr>)"

text \<open>
  The main loop letting time pass up to \<open>t\<close>: each source that is due runs its callback
  at its due time and is dropped. Sources are registered with one interval, so the
  order of the list is the order of the due times.
\<close>

fun dispatch :: "nat \<Rightarrow> (nat \<times> nat) list \<Rightarrow> world \<Rightarrow> world" where
  "dispatch t [] w = w"
| "dispatch t ((i, due) # ss) w =
     (if due \<le> t
      then dispatch t ss (do_save (source_remove i (w\<lparr>clock := due\<rparr>)))
      else dispatch t ss w)"

definition wait :: "nat \<Rightarrow> world \<Rightarrow> world" where
  "wait dt w = (dispatch (clock w + dt) (sources w) w)\<lparr>clock := clock w + dt\<rparr>"

text \<open>What happens to the configuration: a call of \<^verbatim>\<open>set\<close>, or time passing.\<close>

datatype event = Set pystr pyval | Wait nat

fun step :: "event \<Rightarrow> world \<Rightarrow> world" where
  "step (Set k v) w = config_set k v w"
| "step (Wait dt) w = wait dt w"

definition run :: "event list \<Rightarrow> world \<Rightarrow> world" where
  "run es w = fold step es w"


section \<open>The preview: \<^verbatim>\<open>CameraView\<close>\<close>

text \<open>A \<^verbatim>\<open>GdkPixbuf.Pixbuf\<close>: its size and its pixel data.\<close>

record pixbuf =
  pb_width :: int
  pb_height :: int
  pb_pixels :: "nat list"

text \<open>
  The fields of \<^verbatim>\<open>CameraView\<close> that decide what is painted. The buttons and the
  guide overlay, which is stroked over the painted frame from the configuration alone,
  are left out.
\<close>

record camera_view =
  camera_thread :: "camera_thread option"
  captured_frame :: "frame option"
  preview_mode :: bool
  current_frame :: "frame option"
  cached_pixbuf :: "pixbuf option"
  last_frame_size :: "(nat \<times> nat \<times> int \<times> int) option"

definition camera_view_init :: "camera_view" where
  "camera_view_init =
     \<lparr>camera_thread = None, captured_frame = None, preview_mode = False,
      current_frame = None, cached_pixbuf = None, last_frame_size = None\<rparr>"

text \<open>
  \<^verbatim>\<open>CameraView.update_frame\<close>, the 50 ms tick. The result holds the view, whether
  \<^verbatim>\<open>queue_draw()\<close> was called, and the truth of the returned value (whether the
  timeout stays registered).
\<close>

definition update_frame :: "camera_view \<Rightarrow> camera_view \<times> bool \<times> bool" where
  "update_frame v =
     (case camera_thread v of
        None \<Rightarrow> (v, False, False)
      | Some th \<Rightarrow>
          if running th \<and> \<not> preview_mode v
          then
            (let (got, q') = get_frame (frame_queue th);
                 v1 = v\<lparr>camera_thread := Some (th\<lparr>frame_queue := q'\<rparr>)\<rparr>
             in case got of
                  None \<Rightarrow> (v1, False, True)
                | Some fr \<Rightarrow> (v1\<lparr>current_frame := Some fr\<rparr>, True, True))
          else (v, False, running th))"

text \<open>
  What a call of \<^verbatim>\<open>on_draw\<close> does to the drawing area: nothing when there is no
  frame, the paint of a pixbuf at an offset, or an exception
  (\<^verbatim>\<open>ZeroDivisionError\<close> for a frame without columns or rows, \<^verbatim>\<open>TypeError\<close> when
  \<^verbatim>\<open>scale_simple\<close> returned \<^verbatim>\<open>None\<close>).
\<close>

datatype drawn = Nothing_drawn | Painted pixbuf int int | Draw_raises

text \<open>
  \<^verbatim>\<open>CameraView.on_draw\<close>. \<open>scale_simple fr new_w new_h\<close> stands for
  \<^verbatim>\<open>Pixbuf.new_from_data(fr.tobytes(), ...).scale_simple(new_w, new_h, BILINEAR)\<close>, a
  function of GdkPixbuf, and is a parameter. \<^verbatim>\<open>width / w\<close> is the true division of
  two integers, the quotient rounded to a double; \<^verbatim>\<open>w * scale\<close> is the product of
  two doubles (\<^verbatim>\<open>w\<close> converts exactly), rounded; \<^verbatim>\<open>int\<close> of a float that is not
  negative is the floor.
\<close>

definition on_draw ::
  "(frame \<Rightarrow> int \<Rightarrow> int \<Rightarrow> pixbuf option) \<Rightarrow> nat \<times> nat \<Rightarrow> camera_view \<Rightarrow> camera_view \<times> drawn"
where
  "on_draw scale_simple alloc v =
     (let (width, height) = alloc;
          frame_to_draw = (if preview_mode v then captured_frame v else current_frame v)
      in case frame_to_draw of
           None \<Rightarrow> (v, Nothing_drawn)
         | Some fr \<Rightarrow>
             (let h = shape_h fr; w = shape_w fr
              in if w = 0 \<or> h = 0 then (v, Draw_raises)
                 else
                   (let scale = min (round_double (rat_of_nat width / rat_of_nat w))
                                    (round_double (rat_of_nat height / rat_of_nat h));
                        new_w = \<lfloor>round_double (rat_of_nat w * scale)\<rfloor>;
                        new_h = \<lfloor>round_double (rat_of_nat h * scale)\<rfloor>;
                        x_offset = (int width - new_w) div 2;
                        y_offset = (int height - new_h) div 2;
                        frame_size = (w, h, new_w, new_h);
                        v' = (if last_frame_size v \<noteq> Some frame_size \<or> cached_pixbuf v = None
                              then v\<lparr>cached_pixbuf := scale_simple fr new_w new_h,
                                     last_frame_size := Some frame_size\<rparr>
                              else v)
                    in case cached_pixbuf v' of
                         None \<Rightarrow> (v', Draw_raises)
                       | Some pixbuf \<Rightarrow> (v', Painted pixbuf x_offset y_offset))))"

text \<open>
  The draw path without the cache, after the specification's words: the surface is
  scaled from the frame to draw on every call.
\<close>

definition on_draw_uncached ::
  "(frame \<Rightarrow> int \<Rightarrow> int \<Rightarrow> pixbuf option) \<Rightarrow> nat \<times> nat \<Rightarrow> camera_view \<Rightarrow> camera_view \<times> drawn"
where
  "on_draw_uncached scale_simple alloc v =
     on_draw scale_simple alloc (v\<lparr>cached_pixbuf := None\<rparr>)"

text \<open>
  An example for the parameter \<open>scale_simple\<close>: scaling to the size the image has
  keeps the pixel data. It is used only where the target size is the frame's size.
\<close>

definition same_size :: "frame \<Rightarrow> int \<Rightarrow> int \<Rightarrow> pixbuf option" where
  "same_size fr new_w new_h =
     Some \<lparr>pb_width = new_w, pb_height = new_h, pb_pixels = pixel_bytes fr\<rparr>"

text \<open>
  \<^verbatim>\<open>on_capture\<close> and \<^verbatim>\<open>reset_capture\<close>, the two other places where the frame to
  draw changes: both clear the cache.
\<close>

definition on_capture :: "camera_view \<Rightarrow> camera_view" where
  "on_capture v =
     (case current_frame v of
        None \<Rightarrow> v
      | Some fr \<Rightarrow> v\<lparr>captured_frame := Some fr, preview_mode := True, cached_pixbuf := None\<rparr>)"

definition reset_capture :: "camera_view \<Rightarrow> camera_view" where
  "reset_capture v = v\<lparr>captured_frame := None, preview_mode := False, cached_pixbuf := None\<rparr>"

text \<open>
  One tick of the preview: the worker has pushed the frames \<open>fs\<close> since the last tick,
  \<^verbatim>\<open>update_frame\<close> runs, and the draw it queued is served by \<open>draw\<close> (the cached
  path or the uncached one).
\<close>

definition pushed :: "frame list \<Rightarrow> camera_view \<Rightarrow> camera_view" where
  "pushed fs v =
     (case camera_thread v of
        None \<Rightarrow> v
      | Some th \<Rightarrow> v\<lparr>camera_thread := Some (th\<lparr>frame_queue := produce fs (frame_queue th)\<rparr>)\<rparr>)"

definition tick ::
  "(nat \<times> nat \<Rightarrow> camera_view \<Rightarrow> camera_view \<times> drawn) \<Rightarrow> nat \<times> nat \<Rightarrow> frame list \<Rightarrow>
   camera_view \<Rightarrow> camera_view \<times> drawn"
where
  "tick draw alloc fs v =
     (let (v1, queued, keep) = update_frame (pushed fs v)
      in if queued then draw alloc v1 else (v1, Nothing_drawn))"

text \<open>\<^verbatim>\<open>start_camera\<close>, once the worker has opened the device and set \<^verbatim>\<open>running\<close>.\<close>

definition started :: "camera_view" where
  "started = camera_view_init\<lparr>camera_thread := Some (camera_thread_init\<lparr>running := True\<rparr>)\<rparr>"


section \<open>The timelapse: \<^verbatim>\<open>TimelapseView\<close>\<close>

text \<open>\<^verbatim>\<open>s.endswith(suffix)\<close>.\<close>

definition endswith :: "pystr \<Rightarrow> pystr \<Rightarrow> bool" where
  "endswith s suffix =
     (length suffix \<le> length s \<and> drop (length s - length suffix) s = suffix)"

text \<open>
  \<^verbatim>\<open>s.replace(old, new)\<close>: the occurrences of \<^verbatim>\<open>old\<close> are replaced from the left,
  without overlap; an empty \<^verbatim>\<open>old\<close> matches before every character and at the end.
\<close>

function replace :: "pystr \<Rightarrow> pystr \<Rightarrow> pystr \<Rightarrow> pystr" where
  "replace s old new =
     (if old = [] then new @ concat (map (\<lambda>c. c # new) s)
      else if s = [] then []
      else if take (length old) s = old then new @ replace (drop (length old) s) old new
      else hd s # replace (tl s) old new)"
  by pat_completeness auto
termination
  by (relation "measure (\<lambda>(s, old, new). length s)") auto

declare replace.simps [simp del]

text \<open>
  \<^verbatim>\<open>os.path.join(a, b)\<close> and \<^verbatim>\<open>os.path.basename(p)\<close> of \<^verbatim>\<open>posixpath\<close>.
\<close>

definition path_join :: "pystr \<Rightarrow> pystr \<Rightarrow> pystr" where
  "path_join a b =
     (if b \<noteq> [] \<and> hd b = 47 then b
      else if a = [] \<or> last a = 47 then a @ b
      else a @ [47] @ b)"

definition basename :: "pystr \<Rightarrow> pystr" where
  "basename p = rev (takeWhile (\<lambda>c. c \<noteq> 47) (rev p))"

text \<open>
  The widgets of \<^verbatim>\<open>TimelapseView\<close> that the handlers set: the text of the status
  label, the fraction of the progress bar, the sensitivity of the create button.
\<close>

record timelapse_view =
  status_label :: pystr
  progress :: rat
  create_button_sensitive :: bool

text \<open>
  The files of the photos directory that the encode touches, by path: a text file with
  what was written to it, or the video the encoder produced.
\<close>

datatype file_content = Text pystr | Video

type_synonym files = "pystr \<Rightarrow> file_content option"

text \<open>
  What the worker meets outside the program: the time stamp of the output name;
  whether \<^verbatim>\<open>open(list_file, 'w')\<close> raises (with the text of the exception);
  whether \<^verbatim>\<open>f.write(s)\<close> raises for a text \<open>s\<close>, as it does with
  \<^verbatim>\<open>UnicodeEncodeError\<close> when the encoding of the file cannot encode \<open>s\<close>; what
  \<^verbatim>\<open>subprocess.Popen\<close> and \<^verbatim>\<open>communicate\<close> do, either raising (a missing
  encoder binary raises \<^verbatim>\<open>FileNotFoundError\<close>) or the process exiting with a return
  code and its standard error, which \<^verbatim>\<open>decode()\<close> turns into text (\<open>Inr\<close>) or
  raises \<^verbatim>\<open>UnicodeDecodeError\<close> on (\<open>Inl\<close>, the text of the exception); whether the
  encoder wrote its output file; whether \<^verbatim>\<open>os.remove\<close> raises.
\<close>

datatype popen_outcome = Popen_raises pystr | Exited int "pystr + pystr"

record environment =
  timestamp :: pystr
  open_raises :: "pystr option"
  write_raises :: "pystr \<Rightarrow> pystr option"
  popen :: popen_outcome
  output_written :: bool
  remove_raises :: bool

definition is_photo :: "pystr \<Rightarrow> bool" where
  "is_photo f = (endswith f (lit ''.jpg'') \<or> endswith f (lit ''.png''))"

text \<open>
  \<^verbatim>\<open>TimelapseView.on_create\<close>. \<open>listdir\<close> is the outcome of
  \<^verbatim>\<open>os.listdir(photos_dir)\<close>, \<open>None\<close> when it raises; the exception then leaves the
  handler, which is the result \<open>None\<close>. Otherwise the result is the view and the
  arguments of the worker thread, if one was started.
\<close>

definition on_create ::
  "pystr \<Rightarrow> pystr list option \<Rightarrow> rat \<Rightarrow> timelapse_view \<Rightarrow>
   (timelapse_view \<times> (pystr \<times> pystr list \<times> rat) option) option"
where
  "on_create photos_dir listdir duration v =
     (case listdir of
        None \<Rightarrow> None
      | Some names \<Rightarrow>
          (let photos = sort (filter is_photo names)
           in if length photos = 0
              then Some (v\<lparr>status_label := lit ''No photos found!''\<rparr>, None)
              else Some (v\<lparr>create_button_sensitive := False,
                           status_label := lit ''Creating timelapse...'',
                           progress := 0\<rparr>,
                         Some (photos_dir, photos, duration))))"

text \<open>
  The calls of \<^verbatim>\<open>f.write\<close> that the \<^verbatim>\<open>with\<close> block makes on
  \<^verbatim>\<open>filelist.txt\<close>, in order. \<open>fmt\<close> is the formatting of the float
  \<^verbatim>\<open>duration\<close> in an f-string, a function of Python; the duration is modelled by
  the decimal it is written as. \<open>write_photos\<close> is the \<^verbatim>\<open>for\<close> loop, \<open>out\<close> being
  the calls made so far.
\<close>

definition escape :: "pystr \<Rightarrow> pystr" where
  "escape photo = replace photo [39] [39, 92, 39, 39]"

definition file_line :: "pystr \<Rightarrow> pystr" where
  "file_line photo = lit ''file '' @ [39] @ escape photo @ [39, 10]"

definition duration_line :: "(rat \<Rightarrow> pystr) \<Rightarrow> rat \<Rightarrow> pystr" where
  "duration_line fmt duration = lit ''duration '' @ fmt duration @ [10]"

fun write_photos :: "(rat \<Rightarrow> pystr) \<Rightarrow> rat \<Rightarrow> pystr list \<Rightarrow> pystr list \<Rightarrow> pystr list" where
  "write_photos fmt duration [] out = out"
| "write_photos fmt duration (photo # rest) out =
     write_photos fmt duration rest (out @ [file_line photo, duration_line fmt duration])"

definition list_file_writes :: "(rat \<Rightarrow> pystr) \<Rightarrow> pystr list \<Rightarrow> rat \<Rightarrow> pystr list" where
  "list_file_writes fmt photos duration =
     (let out = write_photos fmt duration photos []
      in if photos \<noteq> [] then out @ [file_line (last photos)] else out)"



text \<open>
  The calls carried out on the open file: the first one that raises ends the block, and
  the file, closed by \<^verbatim>\<open>with\<close>, holds what was written before it. The result is the
  texts written and the text of the exception, if one was raised.
\<close>

fun write_lines ::
  "(pystr \<Rightarrow> pystr option) \<Rightarrow> pystr list \<Rightarrow> pystr list \<Rightarrow> pystr list \<times> pystr option"
where
  "write_lines raises [] out = (out, None)"
| "write_lines raises (s # rest) out =
     (case raises s of
        Some msg \<Rightarrow> (out, Some msg)
      | None \<Rightarrow> write_lines raises rest (out @ [s]))"

text \<open>
  The \<^verbatim>\<open>with open(list_file, 'w') as f\<close> block: the files after it and the text of
  the exception that left it, if any.
\<close>

definition write_list_file ::
  "environment \<Rightarrow> pystr list \<Rightarrow> pystr \<Rightarrow> files \<Rightarrow> files \<times> pystr option"
where
  "write_list_file env writes list_file fs =
     (case open_raises env of
        Some msg \<Rightarrow> (fs, Some msg)
      | None \<Rightarrow>
          (let (out, raised) = write_lines (write_raises env) writes []
           in (fs(list_file \<mapsto> Text (concat out)), raised)))"

text \<open>
  \<^verbatim>\<open>TimelapseView.create_timelapse_thread\<close>: the files it leaves and the callback it
  hands to \<^verbatim>\<open>GLib.idle_add\<close>. Every path that raises inside the \<^verbatim>\<open>try\<close> ends in
  \<^verbatim>\<open>except Exception as e\<close>, which only schedules \<^verbatim>\<open>on_timelapse_error(str(e))\<close>.
\<close>

datatype idle_call = On_timelapse_complete pystr | On_timelapse_error pystr

definition create_timelapse_thread ::
  "(rat \<Rightarrow> pystr) \<Rightarrow> environment \<Rightarrow> files \<Rightarrow> pystr \<Rightarrow> pystr list \<Rightarrow> rat \<Rightarrow> files \<times> idle_call"
where
  "create_timelapse_thread fmt env fs photos_dir photos duration =
     (if duration = 0 then (fs, On_timelapse_error (lit ''float division by zero''))
      else
        (let output_file =
               path_join photos_dir (lit ''timelapse_'' @ timestamp env @ lit ''.mp4'');
             list_file = path_join photos_dir (lit ''filelist.txt'')
         in case write_list_file env (list_file_writes fmt photos duration) list_file fs of
              (fs1, Some msg) \<Rightarrow> (fs1, On_timelapse_error msg)
            | (fs1, None) \<Rightarrow>
                (case popen env of
                   Popen_raises msg \<Rightarrow> (fs1, On_timelapse_error msg)
                 | Exited returncode stderr \<Rightarrow>
                     (let fs2 = (if output_written env then fs1(output_file \<mapsto> Video) else fs1);
                          fs3 = (if remove_raises env then fs2 else fs2(list_file := None))
                      in if returncode = 0 then (fs3, On_timelapse_complete output_file)
                         else (case stderr of
                                 Inl msg \<Rightarrow> (fs3, On_timelapse_error msg)
                               | Inr decoded \<Rightarrow> (fs3, On_timelapse_error decoded))))))"

definition on_timelapse_complete :: "pystr \<Rightarrow> timelapse_view \<Rightarrow> timelapse_view" where
  "on_timelapse_complete output_file v =
     v\<lparr>status_label := lit ''Timelapse created: '' @ basename output_file,
       progress := 1,
       create_button_sensitive := True\<rparr>"

definition on_timelapse_error :: "pystr \<Rightarrow> timelapse_view \<Rightarrow> timelapse_view" where
  "on_timelapse_error error_msg v =
     v\<lparr>status_label := lit ''Error: '' @ take 100 error_msg,
       progress := 0,
       create_button_sensitive := True\<rparr>"

text \<open>The main loop running the scheduled callback.\<close>

fun idle :: "idle_call \<Rightarrow> timelapse_view \<Rightarrow> timelapse_view" where
  "idle (On_timelapse_complete output_file) v = on_timelapse_complete output_file v"
| "idle (On_timelapse_error error_msg) v = on_timelapse_error error_msg v"

text \<open>
  A whole encode request: the click on the create button, the worker if the handler
  started one, and the callback the worker scheduled. \<open>None\<close> when the handler raised.
\<close>

definition encode_request ::
  "(rat \<Rightarrow> pystr) \<Rightarrow> environment \<Rightarrow> pystr \<Rightarrow> pystr list option \<Rightarrow> rat \<Rightarrow>
   timelapse_view \<times> files \<Rightarrow> (timelapse_view \<times> files) option"
where
  "encode_request fmt env photos_dir listdir duration st =
     (case on_create photos_dir listdir duration (fst st) of
        None \<Rightarrow> None
      | Some (v1, None) \<Rightarrow> Some (v1, snd st)
      | Some (v1, Some (dir, photos, d)) \<Rightarrow>
          (let (fs', call) = create_timelapse_thread fmt env (snd st) dir photos d
           in Some (idle call v1, fs')))"

text \<open>
  Examples for the parameters. \<open>str_nat\<close> writes a natural number in decimal and
  \<open>decimal\<close> a decimal that is not negative, with up to 17 digits after the point and at
  least one: the way Python writes the float of a slider value (\<^verbatim>\<open>0.2\<close>,
  \<^verbatim>\<open>0.25\<close>, \<^verbatim>\<open>1.0\<close>).
\<close>

function str_nat :: "nat \<Rightarrow> pystr" where
  "str_nat n = (if n < 10 then [48 + n] else str_nat (n div 10) @ [48 + n mod 10])"
  by pat_completeness auto
termination
  by (relation "measure id") auto

declare str_nat.simps [simp del]

fun frac_digits :: "nat \<Rightarrow> rat \<Rightarrow> pystr" where
  "frac_digits 0 x = []"
| "frac_digits (Suc n) x =
     (if x = 0 then []
      else (48 + nat \<lfloor>x * 10\<rfloor>) # frac_digits n (x * 10 - of_int \<lfloor>x * 10\<rfloor>))"

definition decimal :: "rat \<Rightarrow> pystr" where
  "decimal d =
     str_nat (nat \<lfloor>d\<rfloor>) @ [46] @
     (case frac_digits 17 (d - of_int \<lfloor>d\<rfloor>) of [] \<Rightarrow> [48] | ds \<Rightarrow> ds)"

text \<open>
  A file opened with the encoding UTF-8: a write raises \<^verbatim>\<open>UnicodeEncodeError\<close> when
  the text holds a surrogate code point (\<^verbatim>\<open>os.listdir\<close> gives one for each byte of a
  file name that does not decode). The text of the exception names the first run of
  surrogates: the character and its position for a run of one, the positions of the
  first and the last for a longer run.
\<close>

definition surrogate :: "nat \<Rightarrow> bool" where
  "surrogate c = (55296 \<le> c \<and> c \<le> 57343)"

definition hex_digit :: "nat \<Rightarrow> nat" where
  "hex_digit d = (if d < 10 then 48 + d else 87 + d)"

definition hex4 :: "nat \<Rightarrow> pystr" where
  "hex4 c =
     [hex_digit (c div 4096 mod 16), hex_digit (c div 256 mod 16),
      hex_digit (c div 16 mod 16), hex_digit (c mod 16)]"

definition utf8_write_raises :: "pystr \<Rightarrow> pystr option" where
  "utf8_write_raises s =
     (let start = length (takeWhile (\<lambda>c. \<not> surrogate c) s)
      in if start = length s then None
         else
           (let stop = start + length (takeWhile surrogate (drop start s))
            in Some ([39] @ lit ''utf-8'' @ [39] @ lit '' codec can'' @ [39] @ lit ''t encode '' @
                     (if stop = start + 1
                      then lit ''character '' @ [39, 92] @ lit ''u'' @ hex4 (s ! start) @ [39] @
                           lit '' in position '' @ str_nat start
                      else lit ''characters in position '' @ str_nat start @ lit ''-'' @
                           str_nat (stop - 1)) @
                     lit '': surrogates not allowed'')))"

text \<open>
  Examples: the view as \<^verbatim>\<open>TimelapseView.__init__\<close> leaves it, a machine without
  the encoder binary, and an encoder that runs and exits, both writing the script in
  UTF-8.
\<close>

definition timelapse_view_init :: timelapse_view where
  "timelapse_view_init = \<lparr>status_label = [], progress = 0, create_button_sensitive = True\<rparr>"

definition encoder_missing :: environment where
  "encoder_missing =
     \<lparr>timestamp = lit ''20240101_120000'', open_raises = None,
      write_raises = utf8_write_raises,
      popen = Popen_raises (lit ''[Errno 2] No such file or directory: '' @ [39] @ lit ''ffmpeg'' @ [39]),
      output_written = False, remove_raises = False\<rparr>"

definition encoder_exits :: "int \<Rightarrow> pystr + pystr \<Rightarrow> environment" where
  "encoder_exits returncode stderr =
     \<lparr>timestamp = lit ''20240101_120000'', open_raises = None,
      write_raises = utf8_write_raises,
      popen = Exited returncode stderr,
      output_written = (returncode = 0), remove_raises = False\<rparr>"

section \<open>Properties of the capture channel\<close>

lemma get_frame_loop_items:
  "get_frame_loop frame q =
     (if items q = [] then frame else Some (last (items q)), q\<lparr>items := []\<rparr>)"
proof (induction frame q rule: get_frame_loop.induct)
  case (1 frame q)
  show ?case
  proof (cases "items q")
    case Nil
    then show ?thesis by (subst get_frame_loop.simps) (simp add: qempty_def)
  next
    case (Cons x xs)
    then have g: "get_nowait q = Some (x, q\<lparr>items := xs\<rparr>)" and ne: "\<not> qempty q"
      by (simp_all add: get_nowait_def qempty_def)
    from "1.IH" [OF ne g refl]
    have "get_frame_loop (Some x) (q\<lparr>items := xs\<rparr>) =
          (if xs = [] then Some x else Some (last xs), q\<lparr>items := []\<rparr>)"
      by simp
    with g ne Cons show ?thesis
      by (subst get_frame_loop.simps) simp
  qed
qed

lemma run_iteration_items:
  "items (run_iteration (Some f) q) =
     (if 0 < maxsize q \<and> maxsize q \<le> length (items q) then items q else items q @ [f])"
  by (simp add: run_iteration_def put_nowait_def put_def)

lemma run_iteration_maxsize: "maxsize (run_iteration rd q) = maxsize q"
  by (simp add: run_iteration_def put_nowait_def put_def split: option.splits)

lemma produce_maxsize: "maxsize (produce fs q) = maxsize q"
  unfolding produce_def by (induction fs arbitrary: q) (simp_all add: run_iteration_maxsize)

lemma produce_items:
  "0 < maxsize q \<Longrightarrow> length (items q) \<le> maxsize q \<Longrightarrow>
   items (produce fs q) = take (maxsize q) (items q @ fs)"
  unfolding produce_def
proof (induction fs arbitrary: q)
  case Nil
  then show ?case by simp
next
  case (Cons f fs)
  show ?case
  proof (cases "maxsize q \<le> length (items q)")
    case True
    with Cons.prems have "run_iteration (Some f) q = q"
      by (simp add: run_iteration_def put_nowait_def put_def)
    with Cons True show ?thesis by simp
  next
    case False
    then have "length (items (run_iteration (Some f) q)) \<le> maxsize (run_iteration (Some f) q)"
      by (simp add: run_iteration_items run_iteration_maxsize)
    from Cons.IH [OF _ this] Cons.prems False show ?thesis
      by (simp add: run_iteration_items run_iteration_maxsize)
  qed
qed

lemma do_call_bound:
  "0 < maxsize q \<Longrightarrow> length (items q) \<le> maxsize q \<Longrightarrow>
   length (items (do_call c q)) \<le> maxsize (do_call c q) \<and> maxsize (do_call c q) = maxsize q"
  by (cases c)
     (auto simp: run_iteration_def put_nowait_def put_def get_nowait_def get_frame_def
        get_frame_loop_items split: list.splits)

lemma interleaving_bound:
  "0 < maxsize q \<Longrightarrow> length (items q) \<le> maxsize q \<Longrightarrow>
   length (items (interleaving cs q)) \<le> maxsize q \<and> maxsize (interleaving cs q) = maxsize q"
  unfolding interleaving_def
proof (induction cs arbitrary: q)
  case Nil
  then show ?case by simp
next
  case (Cons c cs)
  from do_call_bound [OF Cons.prems, of c]
  have a: "length (items (do_call c q)) \<le> maxsize (do_call c q)"
    and b: "maxsize (do_call c q) = maxsize q"
    by simp_all
  from Cons.prems b have "0 < maxsize (do_call c q)" by simp
  from Cons.IH [OF this a] b show ?case by simp
qed

lemma solid_neq: "0 < h * w \<Longrightarrow> b \<noteq> c \<Longrightarrow> solid h w b \<noteq> solid h w c"
  by (auto simp: solid_def replicate_eq_replicate)

text \<open>
  C5. After every interleaving of the worker's pushes and the consumer's calls the
  channel holds at most 2 frames. A push never blocks; on a channel that holds 2 frames
  it raises \<^verbatim>\<open>queue.Full\<close> at once, the worker swallows it, and the channel is
  unchanged: the new frame is dropped.
\<close>

theorem frame_queue_overload:
  fixes cs :: "frame queue_call list"
  defines "q \<equiv> interleaving cs (frame_queue camera_thread_init)"
  shows "length (items q) \<le> 2 \<and> put_nowait q f \<noteq> Put_blocks \<and>
         (length (items q) = 2 \<longrightarrow> put_nowait q f = Put_Full \<and> run_iteration (Some f) q = q)"
proof -
  have "length (items q) \<le> 2 \<and> maxsize q = 2"
    using interleaving_bound [of "frame_queue camera_thread_init" cs]
    by (simp add: q_def camera_thread_init_def queue_new_def)
  then show ?thesis
    by (simp add: run_iteration_def put_nowait_def put_def)
qed

theorem frame_queue_overload_witness:
  "length (items (interleaving [Push (solid 1 1 1), Push (solid 1 1 2), Push (solid 1 1 3), Pop, Push (solid 1 1 4)]
       (frame_queue camera_thread_init))) = 2 \<and>
   items (run_iteration (Some (solid 1 1 5)) (interleaving [Push (solid 1 1 1), Push (solid 1 1 2), Push (solid 1 1 3), Pop, Push (solid 1 1 4)]
       (frame_queue camera_thread_init))) = [solid 1 1 2, solid 1 1 4]"
proof -
  let ?cs = "[Push (solid 1 1 1), Push (solid 1 1 2), Push (solid 1 1 3), Pop, Push (solid 1 1 4)]"
  have i: "items (interleaving ?cs (frame_queue camera_thread_init)) = [solid 1 1 2, solid 1 1 4]"
    by (simp add: interleaving_def camera_thread_init_def queue_new_def run_iteration_def
        put_nowait_def put_def get_nowait_def)
  then have l: "length (items (interleaving ?cs (frame_queue camera_thread_init))) = 2"
    by simp
  with frame_queue_overload [of ?cs "solid 1 1 5"] i show ?thesis
    by simp
qed

text \<open>
  C1, as amended. After the worker produced the frames \<open>fs\<close> into the empty channel
  with nothing consumed, one call of \<^verbatim>\<open>get_frame\<close> empties the channel and returns
  the last frame the channel accepted: none for no frame, and for more than 2 frames
  the second one produced, since every later frame was dropped.
\<close>

theorem get_frame_last_accepted:
  "get_frame (produce fs (frame_queue camera_thread_init)) =
     (if fs = [] then None else Some (last (take 2 fs)), frame_queue camera_thread_init) \<and>
   (2 < length fs \<longrightarrow>
      fst (get_frame (produce fs (frame_queue camera_thread_init))) = Some (fs ! 1))"
proof -
  let ?q = "produce fs (frame_queue camera_thread_init)"
  have i: "items ?q = take 2 fs"
    using produce_items [of "frame_queue camera_thread_init" fs]
    by (simp add: camera_thread_init_def queue_new_def)
  have m: "maxsize ?q = 2"
    by (simp add: produce_maxsize camera_thread_init_def queue_new_def)
  have q: "?q = \<lparr>maxsize = 2, items = take 2 fs\<rparr>"
    using i m by (cases ?q) simp
  have a: "get_frame ?q =
     (if fs = [] then None else Some (last (take 2 fs)), frame_queue camera_thread_init)"
    unfolding q by (simp add: get_frame_def get_frame_loop_items camera_thread_init_def queue_new_def)
  have "last (take 2 fs) = fs ! 1" if "2 < length fs"
    using that by (simp add: numeral_2_eq_2 take_Suc_conv_app_nth)
  with a show ?thesis by auto
qed

theorem get_frame_last_accepted_witness:
  "get_frame (produce [solid 1 1 1, solid 1 1 2, solid 1 1 3] (frame_queue camera_thread_init)) =
     (Some (solid 1 1 2), frame_queue camera_thread_init)"
  using get_frame_last_accepted [of "[solid 1 1 1, solid 1 1 2, solid 1 1 3]"] by simp

text \<open>
  C1 as stated fails: of three frames produced, the call returns the second, not the
  most recent one.
\<close>

theorem get_frame_not_most_recent:
  "fst (get_frame (produce [solid 1 1 1, solid 1 1 2, solid 1 1 3] (frame_queue camera_thread_init)))
     \<noteq> Some (solid 1 1 3)"
proof -
  have "fst (get_frame (produce [solid 1 1 1, solid 1 1 2, solid 1 1 3]
          (frame_queue camera_thread_init))) = Some (solid 1 1 2)"
    by (simp add: get_frame_def produce_def run_iteration_def put_nowait_def put_def
        camera_thread_init_def queue_new_def get_frame_loop.simps qempty_def get_nowait_def)
  moreover have "solid 1 1 2 \<noteq> solid 1 1 3"
    by (rule solid_neq) simp_all
  ultimately show ?thesis by simp
qed

section \<open>Properties of the configuration\<close>

lemma dict_setitem_keys: "fst ` set (dict_setitem k v d) = insert k (fst ` set d)"
  by (simp add: dict_setitem_def dom_update)

lemma dict_setitem_map_of: "map_of (dict_setitem k v d) = (map_of d)(k \<mapsto> v)"
  by (simp add: dict_setitem_def update_conv')

lemma dict_update_Cons:
  "dict_update d ((k, v) # other) = dict_update (dict_setitem k v d) other"
  by (simp add: dict_update_def)

lemma dict_update_keys:
  "fst ` set (dict_update d other) = fst ` set d \<union> fst ` set other"
proof (induction other arbitrary: d)
  case Nil
  then show ?case by (simp add: dict_update_def)
next
  case (Cons p other)
  obtain k v where p: "p = (k, v)" by (cases p)
  have "fst ` set (dict_update d (p # other)) =
        fst ` set (dict_setitem k v d) \<union> fst ` set other"
    unfolding p dict_update_Cons by (rule Cons.IH)
  then show ?case
    by (simp add: p dict_setitem_keys)
qed

lemma dict_update_map_of:
  "map_of (dict_update d other) = map_of d ++ map_of (rev other)"
proof (induction other arbitrary: d)
  case Nil
  then show ?case by (simp add: dict_update_def)
next
  case (Cons p other)
  obtain k v where p: "p = (k, v)" by (cases p)
  have "map_of (dict_update d (p # other)) =
        map_of (dict_setitem k v d) ++ map_of (rev other)"
    unfolding p dict_update_Cons by (rule Cons.IH)
  then show ?case
    by (simp add: p dict_setitem_map_of)
qed

text \<open>
  C9, as amended. \<^verbatim>\<open>load\<close> overlays every key of the document onto the defaults,
  also a key that is not among them: after the load the dictionary has the default keys
  and the document's keys, a key of the document bound to the document's value and
  every other key to its default. A missing file and a file that cannot be read or
  parsed leave the defaults as they are.
\<close>

theorem load_overlays_every_key:
  "data (config_init dp Missing) = default_data dp \<and>
   data (config_init dp Unreadable) = default_data dp \<and>
   set (map fst (data (config_init dp (Document loaded)))) =
     set (map fst (default_data dp)) \<union> set (map fst loaded) \<and>
   dict_get (data (config_init dp (Document loaded))) k =
     (case map_of (rev loaded) k of
        None \<Rightarrow> dict_get (default_data dp) k
      | Some v \<Rightarrow> Some v)"
  by (simp add: config_init_def load_def dict_update_keys dict_update_map_of dict_get_def
      map_add_def cong: option.case_cong)

theorem load_overlays_every_key_witness:
  "map fst (data (config_init (lit ''/home/u/Pictures/DailyPortraits'')
      (Document [(lit ''guide_x'', PNum (1 / 4)), (lit ''theme'', PStr (lit ''dark''))]))) =
     [lit ''photos_directory'', lit ''guide_enabled'', lit ''guide_x'', lit ''guide_y'',
      lit ''guide_width'', lit ''guide_height'', lit ''theme''] \<and>
   dict_get (data (config_init (lit ''/home/u/Pictures/DailyPortraits'')
      (Document [(lit ''guide_x'', PNum (1 / 4)), (lit ''theme'', PStr (lit ''dark''))])))
     (lit ''guide_x'') = Some (PNum (1 / 4))"
proof -
  have "map fst (data (config_init (lit ''/home/u/Pictures/DailyPortraits'')
      (Document [(lit ''guide_x'', PNum (1 / 4)), (lit ''theme'', PStr (lit ''dark''))]))) =
     [lit ''photos_directory'', lit ''guide_enabled'', lit ''guide_x'', lit ''guide_y'',
      lit ''guide_width'', lit ''guide_height'', lit ''theme'']"
    by (simp add: config_init_def load_def dict_update_def dict_setitem_def default_data_def lit_def)
  with load_overlays_every_key [of "lit ''/home/u/Pictures/DailyPortraits''"
      "[(lit ''guide_x'', PNum (1 / 4)), (lit ''theme'', PStr (lit ''dark''))]" "lit ''guide_x''"]
  show ?thesis
    by (simp add: lit_def)
qed

text \<open>
  C9 as stated fails: the key \<^verbatim>\<open>theme\<close> of the document is not a default key, and it
  is in the dictionary after the load.
\<close>

theorem load_keeps_unknown_key:
  "lit ''theme'' \<in> set (map fst (data (config_init (lit ''/home/u/Pictures/DailyPortraits'')
      (Document [(lit ''theme'', PStr (lit ''dark''))])))) \<and>
   lit ''theme'' \<notin> set (map fst (default_data (lit ''/home/u/Pictures/DailyPortraits'')))"
  by (simp add: config_init_def load_def dict_update_def dict_setitem_def default_data_def lit_def)

text \<open>
  A call of \<^verbatim>\<open>set\<close> while a save is pending leaves the pending timer as it is: the
  timer is neither removed nor started again.
\<close>

lemma set_while_pending:
  "save_pending (cfg w) \<Longrightarrow>
   sources (config_set k v w) = sources w \<and> save_timer (cfg (config_set k v w)) = save_timer (cfg w)"
  by (simp add: config_set_def save_def)

text \<open>
  C2, on the code. \<^verbatim>\<open>set\<close> is called every 300 ms, less than the delay of 500 ms.
  The claim has no write while the calls keep arriving; the code writes at 500 ms (the
  state after the second call) and at 1100 ms (the state after the fourth), since the
  timer runs from the first call after each write and is never reset.
\<close>

theorem save_fires_during_activity:
  "saved (run [Set (lit ''guide_x'') (PNum (1 / 10)), Wait 300,
               Set (lit ''guide_x'') (PNum (2 / 10)), Wait 300,
               Set (lit ''guide_x'') (PNum (3 / 10)), Wait 300,
               Set (lit ''guide_x'') (PNum (4 / 10)), Wait 300,
               Set (lit ''guide_x'') (PNum (5 / 10))]
          (world_init dp Missing)) =
     [(500, dict_setitem (lit ''guide_x'') (PNum (2 / 10)) (default_data dp)),
      (1100, dict_setitem (lit ''guide_x'') (PNum (4 / 10)) (default_data dp))]"
  by (simp add: run_def config_set_def save_def wait_def do_save_def timeout_add_def
      source_remove_def world_init_def config_init_def load_def dict_setitem_def default_data_def
      lit_def)

section \<open>Properties of the preview\<close>

lemmas queue_defs =
  get_frame_def produce_def run_iteration_def put_nowait_def put_def queue_new_def
  camera_thread_init_def qempty_def get_nowait_def

lemma tick_started:
  "tick draw alloc [a] started =
     draw alloc (started\<lparr>camera_thread := Some \<lparr>running = True, frame_queue = queue_new 2\<rparr>,
                         current_frame := Some a\<rparr>)"
  by (simp add: tick_def pushed_def started_def camera_view_init_def update_frame_def queue_defs
      get_frame_loop.simps)

lemma tick_live:
  assumes "camera_thread v = Some \<lparr>running = True, frame_queue = queue_new 2\<rparr>"
      and "\<not> preview_mode v"
  shows "tick draw alloc [b] v = draw alloc (v\<lparr>current_frame := Some b\<rparr>)"
  using assms
  by (cases v)
     (simp add: tick_def pushed_def update_frame_def get_frame_def produce_def run_iteration_def
        put_nowait_def put_def qempty_def get_nowait_def get_frame_loop.simps queue_new_def)

lemma on_draw_live_cached:
  assumes live: "\<not> preview_mode v" and cur: "current_frame v = Some a"
      and drawn: "on_draw scale_simple alloc v = (v1, Painted pa x y)"
      and same: "shape_w b = shape_w a" "shape_h b = shape_h a"
  shows "on_draw scale_simple alloc (v1\<lparr>current_frame := Some b\<rparr>) =
           (v1\<lparr>current_frame := Some b\<rparr>, Painted pa x y)"
    and "camera_thread v1 = camera_thread v" and "preview_mode v1 = preview_mode v"
proof -
  obtain width height where alloc: "alloc = (width, height)" by (cases alloc)
  define scale where
    "scale = min (round_double (rat_of_nat width / rat_of_nat (shape_w a)))
                 (round_double (rat_of_nat height / rat_of_nat (shape_h a)))"
  define new_w where "new_w = \<lfloor>round_double (rat_of_nat (shape_w a) * scale)\<rfloor>"
  define new_h where "new_h = \<lfloor>round_double (rat_of_nat (shape_h a) * scale)\<rfloor>"
  define frame_size where "frame_size = (shape_w a, shape_h a, new_w, new_h)"
  define v' where
    "v' = (if last_frame_size v \<noteq> Some frame_size \<or> cached_pixbuf v = None
           then v\<lparr>cached_pixbuf := scale_simple a new_w new_h, last_frame_size := Some frame_size\<rparr>
           else v)"
  have nz: "shape_w a \<noteq> 0 \<and> shape_h a \<noteq> 0"
  proof (rule ccontr)
    assume "\<not> (shape_w a \<noteq> 0 \<and> shape_h a \<noteq> 0)"
    then have "on_draw scale_simple alloc v = (v, Draw_raises)"
      using live cur by (simp add: on_draw_def alloc)
    with drawn show False by simp
  qed
  have unfolded: "on_draw scale_simple alloc v =
      (case cached_pixbuf v' of
         None \<Rightarrow> (v', Draw_raises)
       | Some pixbuf \<Rightarrow> (v', Painted pixbuf ((int width - new_w) div 2) ((int height - new_h) div 2)))"
  proof (cases "last_frame_size v \<noteq> Some frame_size \<or> cached_pixbuf v = None")
    case True
    then have "v' = v\<lparr>cached_pixbuf := scale_simple a new_w new_h,
                       last_frame_size := Some frame_size\<rparr>"
      by (simp add: v'_def)
    moreover from True live cur nz
    have "on_draw scale_simple alloc v =
      (case scale_simple a new_w new_h of
         None \<Rightarrow> (v\<lparr>cached_pixbuf := scale_simple a new_w new_h,
                      last_frame_size := Some frame_size\<rparr>, Draw_raises)
       | Some pixbuf \<Rightarrow> (v\<lparr>cached_pixbuf := scale_simple a new_w new_h,
                             last_frame_size := Some frame_size\<rparr>,
                           Painted pixbuf ((int width - new_w) div 2) ((int height - new_h) div 2)))"
      unfolding frame_size_def new_w_def new_h_def scale_def
      by (simp add: on_draw_def alloc Let_def)
    ultimately show ?thesis by (simp split: option.splits)
  next
    case False
    then have "v' = v"
      by (auto simp: v'_def)
    moreover from False live cur nz
    have "on_draw scale_simple alloc v =
      (case cached_pixbuf v of
         None \<Rightarrow> (v, Draw_raises)
       | Some pixbuf \<Rightarrow>
           (v, Painted pixbuf ((int width - new_w) div 2) ((int height - new_h) div 2)))"
      unfolding frame_size_def new_w_def new_h_def scale_def
      by (auto simp: on_draw_def alloc Let_def)
    ultimately show ?thesis by (simp split: option.splits)
  qed
  from drawn have res: "v1 = v'" "cached_pixbuf v' = Some pa"
    "x = (int width - new_w) div 2" "y = (int height - new_h) div 2"
    unfolding unfolded by (simp_all split: option.splits)
  have last: "last_frame_size v' = Some frame_size"
    by (simp add: v'_def)
  have rest: "camera_thread v' = camera_thread v" "preview_mode v' = preview_mode v"
    by (simp_all add: v'_def)
  show "camera_thread v1 = camera_thread v" "preview_mode v1 = preview_mode v"
    using rest res(1) by simp_all
  show "on_draw scale_simple alloc (v1\<lparr>current_frame := Some b\<rparr>) =
           (v1\<lparr>current_frame := Some b\<rparr>, Painted pa x y)"
    using live nz same last rest res(2)
    unfolding res(1) res(3) res(4)
    by (simp add: on_draw_def alloc Let_def frame_size_def new_w_def new_h_def scale_def)
qed

text \<open>
  C3, on the code. The first tick of the live preview paints the pixbuf \<open>pa\<close> scaled
  from frame \<open>a\<close>. When the next frame \<open>b\<close> has the shape of \<open>a\<close> and the drawing area
  its size, the next tick paints \<open>pa\<close> again: the cache is keyed by the sizes alone and
  \<^verbatim>\<open>update_frame\<close> does not clear it, so the new frame is not displayed.
\<close>

theorem cached_pixbuf_stale:
  assumes "shape_w b = shape_w a" "shape_h b = shape_h a"
      and "tick (on_draw scale_simple) alloc [a] started = (v1, Painted pa x y)"
  shows "snd (tick (on_draw scale_simple) alloc [b] v1) = Painted pa x y"
proof -
  let ?v0 = "started\<lparr>camera_thread := Some \<lparr>running = True, frame_queue = queue_new 2\<rparr>,
                      current_frame := Some a\<rparr>"
  have d: "on_draw scale_simple alloc ?v0 = (v1, Painted pa x y)"
    using assms(3) by (simp add: tick_started)
  have p: "\<not> preview_mode ?v0" and c: "current_frame ?v0 = Some a"
    by (simp_all add: started_def camera_view_init_def)
  note k = on_draw_live_cached [OF p c d assms(1,2)]
  have "tick (on_draw scale_simple) alloc [b] v1 =
        on_draw scale_simple alloc (v1\<lparr>current_frame := Some b\<rparr>)"
    by (rule tick_live) (simp_all add: k(2,3) started_def camera_view_init_def)
  with k(1) show ?thesis by simp
qed

lemma solid_pixels_neq:
  "0 < h * w \<Longrightarrow> c \<noteq> c' \<Longrightarrow> pixel_bytes (solid h w c) \<noteq> pixel_bytes (solid h w c')"
  by (simp add: solid_def replicate_eq_replicate)

lemma solid_fields [simp]: "shape_w (solid h w c) = w" "shape_h (solid h w c) = h"
  by (simp_all add: solid_def)

lemma round_double_sizes:
  "round_double 1 = 1" "round_double 640 = 640" "round_double 480 = 480"
  by code_simp+

lemma tick1:
  "tick (on_draw same_size) (640, 480) [solid 480 640 0] started =
       (started\<lparr>camera_thread := Some \<lparr>running = True, frame_queue = queue_new 2\<rparr>,
                current_frame := Some (solid 480 640 0),
                cached_pixbuf := Some \<lparr>pb_width = 640, pb_height = 480, pb_pixels = pixel_bytes (solid 480 640 0)\<rparr>,
                last_frame_size := Some (640, 480, 640, 480)\<rparr>,
        Painted \<lparr>pb_width = 640, pb_height = 480, pb_pixels = pixel_bytes (solid 480 640 0)\<rparr> 0 0)"
  unfolding tick_started
  by (simp add: on_draw_def same_size_def started_def camera_view_init_def round_double_sizes)

text \<open>
  Two 640 by 480 frames, black and then white, on a drawing area of 640 by 480: the
  cached path paints the black frame at the second tick, the uncached path the white one.
\<close>

theorem cached_pixbuf_stale_witness:
  "snd (tick (on_draw same_size) (640, 480) [solid 480 640 255]
          (fst (tick (on_draw same_size) (640, 480) [solid 480 640 0] started))) =
     Painted \<lparr>pb_width = 640, pb_height = 480, pb_pixels = pixel_bytes (solid 480 640 0)\<rparr> 0 0 \<and>
   snd (tick (on_draw_uncached same_size) (640, 480) [solid 480 640 255]
          (fst (tick (on_draw same_size) (640, 480) [solid 480 640 0] started))) =
     Painted \<lparr>pb_width = 640, pb_height = 480, pb_pixels = pixel_bytes (solid 480 640 255)\<rparr> 0 0 \<and>
   pixel_bytes (solid 480 640 0) \<noteq> pixel_bytes (solid 480 640 255)"
proof -
  have u: "snd (tick (on_draw_uncached same_size) (640, 480) [solid 480 640 255]
          (fst (tick (on_draw same_size) (640, 480) [solid 480 640 0] started))) =
     Painted \<lparr>pb_width = 640, pb_height = 480, pb_pixels = pixel_bytes (solid 480 640 255)\<rparr> 0 0"
    unfolding tick1
    by (simp add: tick_live on_draw_uncached_def on_draw_def same_size_def started_def
        camera_view_init_def round_double_sizes)
  have n: "pixel_bytes (solid 480 640 0) \<noteq> pixel_bytes (solid 480 640 255)"
    by (rule solid_pixels_neq) simp_all
  from cached_pixbuf_stale [OF _ _ tick1, of "solid 480 640 255"] u n
  show ?thesis unfolding tick1 by simp
qed

text \<open>
  The sibling paths clear the cache, so the draw after \<^verbatim>\<open>on_capture\<close> or
  \<^verbatim>\<open>reset_capture\<close> is the uncached one.
\<close>

lemma capture_clears_cache:
  "current_frame v = Some b \<Longrightarrow>
   on_draw scale_simple alloc (on_capture v) = on_draw_uncached scale_simple alloc (on_capture v)"
  by (simp add: on_capture_def on_draw_uncached_def)

lemma reset_clears_cache:
  "on_draw scale_simple alloc (reset_capture v) =
   on_draw_uncached scale_simple alloc (reset_capture v)"
  by (simp add: reset_capture_def on_draw_uncached_def)

section \<open>Properties of the timelapse\<close>

lemma write_photos_append:
  "write_photos fmt d photos out =
     out @ concat (map (\<lambda>p. [file_line p, duration_line fmt d]) photos)"
  by (induction photos arbitrary: out) simp_all

lemma list_file_writes_entries:
  "list_file_writes fmt photos d =
     concat (map (\<lambda>p. [file_line p, duration_line fmt d]) photos) @
     (if photos \<noteq> [] then [file_line (last photos)] else [])"
  by (simp add: list_file_writes_def write_photos_append)



lemma write_lines_all:
  "\<forall>s \<in> set ss. raises s = None \<Longrightarrow> write_lines raises ss out = (out @ ss, None)"
  by (induction ss arbitrary: out) simp_all

lemma utf8_writes_ascii:
  "\<forall>c \<in> set s. c < 128 \<Longrightarrow> utf8_write_raises s = None"
proof -
  assume "\<forall>c \<in> set s. c < 128"
  then have "\<forall>c \<in> set s. \<not> surrogate c"
    by (auto simp: surrogate_def)
  then have t: "takeWhile (\<lambda>c. \<not> surrogate c) s = s"
    by (simp add: takeWhile_eq_all_conv)
  show ?thesis
    unfolding utf8_write_raises_def t by simp
qed

lemma decimal_fifth: "decimal (1 / 5) = lit ''0.2''"
proof -
  have "decimal (1 / 5) = [48, 46, 50]" by code_simp
  then show ?thesis
    by (simp add: lit_def)
qed




lemma replace_quote:
  "replace s [39] new = concat (map (\<lambda>c. if c = 39 then new else [c]) s)"
proof (induction s)
  case Nil
  show ?case by (subst replace.simps) simp
next
  case (Cons c s)
  show ?case
    by (subst replace.simps) (simp add: Cons.IH)
qed

lemma file_line_not_duration_line: "file_line p \<noteq> duration_line fmt d"
  by (simp add: file_line_def duration_line_def lit_def)

lemma filter_entries:
  "filter (\<lambda>l. l \<noteq> duration_line fmt d) (concat (map (\<lambda>p. [file_line p, duration_line fmt d]) photos)) =
     map file_line photos"
  by (induction photos) (simp_all add: file_line_not_duration_line)

text \<open>
  C10. In a file name every single quote (39) is replaced by the four characters
  quote, backslash, quote, quote before the name is put between the quotes of its
  \<^verbatim>\<open>file\<close> line; the file lines of the script are those of the photos in order
  and of the final photo once more, each quoted in this way.
\<close>

theorem file_names_quoted:
  "escape photo = concat (map (\<lambda>c. if c = 39 then [39, 92, 39, 39] else [c]) photo) \<and>
   file_line photo = lit ''file '' @ [39] @ escape photo @ [39, 10] \<and>
   (photos \<noteq> [] \<longrightarrow>
      filter (\<lambda>l. l \<noteq> duration_line fmt d) (list_file_writes fmt photos d) =
        map file_line (photos @ [last photos]))"
proof (intro conjI impI)
  show "escape photo = concat (map (\<lambda>c. if c = 39 then [39, 92, 39, 39] else [c]) photo)"
    by (simp add: escape_def replace_quote)
  show "file_line photo = lit ''file '' @ [39] @ escape photo @ [39, 10]"
    by (simp add: file_line_def)
  show "filter (\<lambda>l. l \<noteq> duration_line fmt d) (list_file_writes fmt photos d) =
        map file_line (photos @ [last photos])" if "photos \<noteq> []"
    using that
    by (simp add: list_file_writes_entries filter_entries file_line_not_duration_line)
qed

theorem file_names_quoted_witness:
  "escape (lit ''it'' @ [39] @ lit ''s.jpg'') = lit ''it'' @ [39, 92, 39, 39] @ lit ''s.jpg'' \<and>
   filter (\<lambda>l. l \<noteq> duration_line (\<lambda>d. lit ''0.2'') (1 / 5))
     (list_file_writes (\<lambda>d. lit ''0.2'') [lit ''it'' @ [39] @ lit ''s.jpg''] (1 / 5)) =
     [lit ''file '' @ [39] @ lit ''it'' @ [39, 92, 39, 39] @ lit ''s.jpg'' @ [39, 10],
      lit ''file '' @ [39] @ lit ''it'' @ [39, 92, 39, 39] @ lit ''s.jpg'' @ [39, 10]]"
  using file_names_quoted [of "lit ''it'' @ [39] @ lit ''s.jpg''" "[lit ''it'' @ [39] @ lit ''s.jpg'']"
      "\<lambda>d. lit ''0.2''" "1 / 5"]
  by (simp add: lit_def)

text \<open>
  C6. When the directory lists no name ending in \<^verbatim>\<open>.jpg\<close> or \<^verbatim>\<open>.png\<close>, the
  request only sets the status label to \<^verbatim>\<open>No photos found!\<close>: no worker is started
  and the files are unchanged, so neither script nor output is created. When it lists at
  least one, a worker is started on the sorted photo list.
\<close>

theorem no_photos_no_worker:
  "(filter is_photo names = [] \<longrightarrow>
      on_create photos_dir (Some names) duration v =
        Some (v\<lparr>status_label := lit ''No photos found!''\<rparr>, None) \<and>
      encode_request fmt env photos_dir (Some names) duration (v, fs) =
        Some (v\<lparr>status_label := lit ''No photos found!''\<rparr>, fs)) \<and>
   (filter is_photo names \<noteq> [] \<longrightarrow>
      on_create photos_dir (Some names) duration v =
        Some (v\<lparr>create_button_sensitive := False,
                 status_label := lit ''Creating timelapse...'',
                 progress := 0\<rparr>,
              Some (photos_dir, sort (filter is_photo names), duration)))"
proof (intro conjI impI)
  assume e: "filter is_photo names = []"
  then show c: "on_create photos_dir (Some names) duration v =
        Some (v\<lparr>status_label := lit ''No photos found!''\<rparr>, None)"
    by (simp add: on_create_def)
  show "encode_request fmt env photos_dir (Some names) duration (v, fs) =
        Some (v\<lparr>status_label := lit ''No photos found!''\<rparr>, fs)"
    by (simp add: encode_request_def c)
next
  assume "filter is_photo names \<noteq> []"
  then have "sort (filter is_photo names) \<noteq> []"
    by (metis length_sort length_0_conv)
  then show "on_create photos_dir (Some names) duration v =
        Some (v\<lparr>create_button_sensitive := False,
                 status_label := lit ''Creating timelapse...'',
                 progress := 0\<rparr>,
              Some (photos_dir, sort (filter is_photo names), duration))"
    by (simp add: on_create_def Let_def)
qed

theorem no_photos_no_worker_witness:
  "encode_request (\<lambda>d. lit ''0.2'') encoder_missing (lit ''/p'')
       (Some [lit ''notes.txt'', lit ''a.jpeg'']) (1 / 5) (timelapse_view_init, Map.empty) =
     Some (timelapse_view_init\<lparr>status_label := lit ''No photos found!''\<rparr>, Map.empty) \<and>
   on_create (lit ''/p'') (Some [lit ''b.jpg'', lit ''notes.txt'', lit ''a.png'']) (1 / 5)
       timelapse_view_init =
     Some (timelapse_view_init\<lparr>create_button_sensitive := False,
                               status_label := lit ''Creating timelapse...'',
                               progress := 0\<rparr>,
           Some (lit ''/p'', [lit ''a.png'', lit ''b.jpg''], 1 / 5))"
proof -
  have a: "filter is_photo [lit ''notes.txt'', lit ''a.jpeg''] = []"
    by (simp add: is_photo_def endswith_def lit_def)
  have b: "filter is_photo [lit ''b.jpg'', lit ''notes.txt'', lit ''a.png''] =
           [lit ''b.jpg'', lit ''a.png'']"
    by (simp add: is_photo_def endswith_def lit_def)
  have c: "sort [lit ''b.jpg'', lit ''a.png''] = [lit ''a.png'', lit ''b.jpg'']"
    by (simp add: lit_def)
  have b': "filter is_photo [lit ''b.jpg'', lit ''notes.txt'', lit ''a.png''] \<noteq> []"
    unfolding b by simp
  note none = no_photos_no_worker [where names = "[lit ''notes.txt'', lit ''a.jpeg'']"
      and fmt = "\<lambda>d. lit ''0.2''" and env = encoder_missing and photos_dir = "lit ''/p''"
      and duration = "1 / 5" and v = timelapse_view_init and fs = Map.empty,
      THEN conjunct1, THEN mp, OF a, THEN conjunct2]
  note some = no_photos_no_worker [where names = "[lit ''b.jpg'', lit ''notes.txt'', lit ''a.png'']"
      and photos_dir = "lit ''/p''" and duration = "1 / 5" and v = timelapse_view_init,
      THEN conjunct2, THEN mp, OF b']
  show ?thesis
    using none some unfolding b c by simp
qed

lemma idle_enables: "create_button_sensitive (idle call v)"
  by (cases call) (simp_all add: on_timelapse_complete_def on_timelapse_error_def)

lemma ascii_script_written:
  "\<forall>s \<in> set (list_file_writes decimal [lit ''a.jpg''] (1 / 5)). utf8_write_raises s = None"
proof -
  have e: "escape (lit ''a.jpg'') = lit ''a.jpg''"
    by (simp add: escape_def lit_def replace.simps)
  have w: "list_file_writes decimal [lit ''a.jpg''] (1 / 5) =
           [lit ''file '' @ [39] @ lit ''a.jpg'' @ [39, 10], lit ''duration 0.2'' @ [10],
            lit ''file '' @ [39] @ lit ''a.jpg'' @ [39, 10]]"
    by (simp add: list_file_writes_def file_line_def duration_line_def e decimal_fifth)
       (simp add: lit_def)
  show ?thesis
    unfolding w by (simp add: utf8_writes_ascii lit_def)
qed

lemma thread_after_script:
  assumes "duration \<noteq> 0" and "open_raises env = None"
      and "\<forall>s \<in> set (list_file_writes fmt photos duration). write_raises env s = None"
  shows "create_timelapse_thread fmt env fs photos_dir photos duration =
     (let output_file = path_join photos_dir (lit ''timelapse_'' @ timestamp env @ lit ''.mp4'');
          list_file = path_join photos_dir (lit ''filelist.txt'');
          fs1 = fs(list_file \<mapsto> Text (concat (list_file_writes fmt photos duration)))
      in case popen env of
           Popen_raises msg \<Rightarrow> (fs1, On_timelapse_error msg)
         | Exited returncode stderr \<Rightarrow>
             (let fs2 = (if output_written env then fs1(output_file \<mapsto> Video) else fs1);
                  fs3 = (if remove_raises env then fs2 else fs2(list_file := None))
              in if returncode = 0 then (fs3, On_timelapse_complete output_file)
                 else (case stderr of
                         Inl msg \<Rightarrow> (fs3, On_timelapse_error msg)
                       | Inr decoded \<Rightarrow> (fs3, On_timelapse_error decoded))))"
  using assms(1,2) write_lines_all [OF assms(3), of "[]"]
  by (simp add: create_timelapse_thread_def write_list_file_def Let_def)

text \<open>
  C7, as amended. When the encoder ran and exited: return code 0 schedules the
  completion with the output path; any other return code schedules the error, whose
  message is the text of standard error when that decodes and the text of the
  \<^verbatim>\<open>UnicodeDecodeError\<close> when it does not, shown cut to at most 100 characters. In
  either case the callback makes the create button sensitive again.
\<close>

theorem encoder_exit_surfaced:
  fixes fmt :: "rat \<Rightarrow> pystr" and fs :: files and photos_dir :: pystr and photos :: "pystr list"
  assumes "duration \<noteq> 0" and "open_raises env = None"
      and "\<forall>s \<in> set (list_file_writes fmt photos duration). write_raises env s = None"
      and "popen env = Exited returncode stderr"
  defines "call \<equiv> snd (create_timelapse_thread fmt env fs photos_dir photos duration)"
  shows "(returncode = 0 \<longrightarrow>
            call = On_timelapse_complete
                     (path_join photos_dir (lit ''timelapse_'' @ timestamp env @ lit ''.mp4''))) \<and>
         (returncode \<noteq> 0 \<and> stderr = Inr stderr_text \<longrightarrow>
            call = On_timelapse_error stderr_text \<and>
            status_label (idle call v) = lit ''Error: '' @ take 100 stderr_text \<and>
            length (take 100 stderr_text) \<le> 100) \<and>
         (returncode \<noteq> 0 \<and> stderr = Inl decode_error \<longrightarrow>
            call = On_timelapse_error decode_error \<and>
            status_label (idle call v) = lit ''Error: '' @ take 100 decode_error \<and>
            length (take 100 decode_error) \<le> 100) \<and>
         create_button_sensitive (idle call v)"
  unfolding call_def thread_after_script [OF assms(1-3)]
  using assms(4)
  by (auto simp: Let_def on_timelapse_error_def idle_enables split: sum.splits)

theorem encoder_exit_surfaced_witness:
  "snd (create_timelapse_thread decimal (encoder_exits 0 (Inr [])) Map.empty (lit ''/p'')
          [lit ''a.jpg''] (1 / 5)) =
     On_timelapse_complete (lit ''/p/timelapse_20240101_120000.mp4'') \<and>
   status_label (idle (snd (create_timelapse_thread decimal
       (encoder_exits 1 (Inr (lit ''filelist.txt: Invalid data found when processing input'')))
       Map.empty (lit ''/p'') [lit ''a.jpg''] (1 / 5))) (timelapse_view_init\<lparr>create_button_sensitive := False\<rparr>)) =
     lit ''Error: filelist.txt: Invalid data found when processing input'' \<and>
   create_button_sensitive (idle (snd (create_timelapse_thread decimal
       (encoder_exits 1 (Inr (lit ''filelist.txt: Invalid data found when processing input'')))
       Map.empty (lit ''/p'') [lit ''a.jpg''] (1 / 5))) (timelapse_view_init\<lparr>create_button_sensitive := False\<rparr>))"
proof -
  have d: "(1 / 5 :: rat) \<noteq> 0" by simp
  have o: "open_raises (encoder_exits rc e) = None" "popen (encoder_exits rc e) = Exited rc e"
    "timestamp (encoder_exits rc e) = lit ''20240101_120000''" for rc e
    by (simp_all add: encoder_exits_def)
  have u: "\<forall>s \<in> set (list_file_writes decimal [lit ''a.jpg''] (1 / 5)).
             write_raises (encoder_exits rc e) s = None" for rc e
    by (simp add: ascii_script_written encoder_exits_def)
  note o0 = o [of 0 "Inr []"]
  note o1 = o [of 1 "Inr (lit ''filelist.txt: Invalid data found when processing input'')"]
  let ?err = "lit ''filelist.txt: Invalid data found when processing input''"
  note ok = encoder_exit_surfaced [where fmt = decimal and fs = Map.empty
      and photos_dir = "lit ''/p''" and photos = "[lit ''a.jpg'']", OF d o0(1) u o0(2),
      THEN conjunct1, THEN mp, OF refl]
  note nonzero = encoder_exit_surfaced [where fmt = decimal and fs = Map.empty
      and photos_dir = "lit ''/p''" and photos = "[lit ''a.jpg'']"
      and stderr_text = "lit ''filelist.txt: Invalid data found when processing input''"
      and v = "timelapse_view_init\<lparr>create_button_sensitive := False\<rparr>", OF d o1(1) u o1(2),
      THEN conjunct2]
  have j: "path_join (lit ''/p'') (lit ''timelapse_'' @ lit ''20240101_120000'' @ lit ''.mp4'') =
           lit ''/p/timelapse_20240101_120000.mp4''"
    by (simp add: path_join_def lit_def)
  have t: "lit ''Error: '' @ take 100 (lit ''filelist.txt: Invalid data found when processing input'') =
           lit ''Error: filelist.txt: Invalid data found when processing input''"
    by (simp add: lit_def)
  from ok nonzero
  show ?thesis
    unfolding o(3) j by (simp add: t on_timelapse_error_def)
qed

text \<open>
  C7 as stated fails for a run whose standard error does not decode (the bytes begin
  with 0xff): the encoder exits with code 1, \<^verbatim>\<open>stderr.decode()\<close> raises, and the
  message shown is the text of that exception, not the text of standard error.
\<close>

theorem decode_error_surfaced:
  "snd (create_timelapse_thread decimal
     (encoder_exits 1 (Inl ([39] @ lit ''utf-8'' @ [39] @ lit '' codec can'' @ [39] @
        lit ''t decode byte 0xff in position 0: invalid start byte'')))
     Map.empty (lit ''/p'') [lit ''a.jpg''] (1 / 5)) =
     On_timelapse_error ([39] @ lit ''utf-8'' @ [39] @ lit '' codec can'' @ [39] @
        lit ''t decode byte 0xff in position 0: invalid start byte'') \<and>
   status_label (idle (snd (create_timelapse_thread decimal
     (encoder_exits 1 (Inl ([39] @ lit ''utf-8'' @ [39] @ lit '' codec can'' @ [39] @
        lit ''t decode byte 0xff in position 0: invalid start byte'')))
     Map.empty (lit ''/p'') [lit ''a.jpg''] (1 / 5))) timelapse_view_init) =
     lit ''Error: '' @ [39] @ lit ''utf-8'' @ [39] @ lit '' codec can'' @ [39] @
        lit ''t decode byte 0xff in position 0: invalid start byte''"
proof -
  define msg where
    "msg = [39] @ lit ''utf-8'' @ [39] @ lit '' codec can'' @ [39] @
        lit ''t decode byte 0xff in position 0: invalid start byte''"
  have d: "(1 / 5 :: rat) \<noteq> 0" by simp
  have o: "open_raises (encoder_exits 1 (Inl msg)) = None"
    "popen (encoder_exits 1 (Inl msg)) = Exited 1 (Inl msg)"
    by (simp_all add: encoder_exits_def)
  have u: "\<forall>s \<in> set (list_file_writes decimal [lit ''a.jpg''] (1 / 5)).
             write_raises (encoder_exits 1 (Inl msg)) s = None"
    by (simp add: ascii_script_written encoder_exits_def)
  have c: "snd (create_timelapse_thread decimal (encoder_exits 1 (Inl msg)) Map.empty (lit ''/p'')
             [lit ''a.jpg''] (1 / 5)) = On_timelapse_error msg"
    unfolding thread_after_script [OF d o(1) u] by (simp add: o(2) Let_def)
  have l: "length msg \<le> 100"
    by (simp add: msg_def lit_def)
  show ?thesis
    unfolding msg_def [symmetric] c using l by (simp add: on_timelapse_error_def)
qed

text \<open>A message of 150 characters is shown cut to its first 100.\<close>

lemma error_message_cut:
  "status_label (on_timelapse_error (replicate 150 120) v) = lit ''Error: '' @ replicate 100 120"
  by (simp add: on_timelapse_error_def)

text \<open>
  When the encoder ran and exited, with any return code, the script file is removed
  unless \<^verbatim>\<open>os.remove\<close> raises.
\<close>

lemma list_file_removed:
  assumes "duration \<noteq> 0" and "open_raises env = None"
      and "\<forall>s \<in> set (list_file_writes fmt photos duration). write_raises env s = None"
      and "popen env = Exited returncode stderr"
      and "\<not> remove_raises env"
      and "path_join photos_dir (lit ''timelapse_'' @ timestamp env @ lit ''.mp4'') \<noteq>
           path_join photos_dir (lit ''filelist.txt'')"
  shows "fst (create_timelapse_thread fmt env fs photos_dir photos duration)
           (path_join photos_dir (lit ''filelist.txt'')) = None"
  unfolding thread_after_script [OF assms(1-3)]
  using assms(4-6)
  by (auto simp: Let_def split: sum.splits)

text \<open>
  C8, on the code. When \<^verbatim>\<open>subprocess.Popen\<close> or \<^verbatim>\<open>communicate\<close> raises, as it
  does on a machine without the encoder binary, control passes to the \<^verbatim>\<open>except\<close>
  clause and the script file that was written stays in the photos directory.
\<close>

theorem list_file_left_behind:
  assumes "duration \<noteq> 0" and "open_raises env = None" and "popen env = Popen_raises msg"
  shows "fst (create_timelapse_thread fmt env fs photos_dir photos duration)
           (path_join photos_dir (lit ''filelist.txt'')) =
           Some (Text (concat (fst (write_lines (write_raises env)
                                      (list_file_writes fmt photos duration) [])))) \<and>
         ((\<forall>s \<in> set (list_file_writes fmt photos duration). write_raises env s = None) \<longrightarrow>
          create_timelapse_thread fmt env fs photos_dir photos duration =
            (fs(path_join photos_dir (lit ''filelist.txt'') \<mapsto>
                  Text (concat (list_file_writes fmt photos duration))),
             On_timelapse_error msg))"
proof (intro conjI impI)
  show "fst (create_timelapse_thread fmt env fs photos_dir photos duration)
           (path_join photos_dir (lit ''filelist.txt'')) =
           Some (Text (concat (fst (write_lines (write_raises env)
                                      (list_file_writes fmt photos duration) []))))"
    using assms
    by (cases "write_lines (write_raises env) (list_file_writes fmt photos duration) []")
       (auto simp: create_timelapse_thread_def write_list_file_def Let_def split: option.splits)
next
  assume "\<forall>s \<in> set (list_file_writes fmt photos duration). write_raises env s = None"
  from thread_after_script [OF assms(1,2) this]
  show "create_timelapse_thread fmt env fs photos_dir photos duration =
            (fs(path_join photos_dir (lit ''filelist.txt'') \<mapsto>
                  Text (concat (list_file_writes fmt photos duration))),
             On_timelapse_error msg)"
    using assms(3) by (simp add: Let_def)
qed

theorem list_file_left_behind_witness:
  "fst (create_timelapse_thread (\<lambda>d. lit ''0.2'') encoder_missing Map.empty (lit ''/p'')
          [lit ''a.jpg''] (1 / 5)) (lit ''/p/filelist.txt'') =
     Some (Text (lit ''file '' @ [39] @ lit ''a.jpg'' @ [39, 10] @ lit ''duration 0.2'' @ [10] @
                 lit ''file '' @ [39] @ lit ''a.jpg'' @ [39, 10]))"
proof -
  have d: "(1 / 5 :: rat) \<noteq> 0" by simp
  have o: "open_raises encoder_missing = None"
    "popen encoder_missing =
       Popen_raises (lit ''[Errno 2] No such file or directory: '' @ [39] @ lit ''ffmpeg'' @ [39])"
    by (simp_all add: encoder_missing_def)
  have j: "path_join (lit ''/p'') (lit ''filelist.txt'') = lit ''/p/filelist.txt''"
    by (simp add: path_join_def lit_def)
  have e: "escape (lit ''a.jpg'') = lit ''a.jpg''"
    by (simp add: escape_def lit_def replace.simps)
  have w: "list_file_writes (\<lambda>d. lit ''0.2'') [lit ''a.jpg''] (1 / 5) =
           [lit ''file '' @ [39] @ lit ''a.jpg'' @ [39, 10], lit ''duration 0.2'' @ [10],
            lit ''file '' @ [39] @ lit ''a.jpg'' @ [39, 10]]"
    by (simp add: list_file_writes_def file_line_def duration_line_def e) (simp add: lit_def)
  have u: "\<forall>s \<in> set (list_file_writes (\<lambda>d. lit ''0.2'') [lit ''a.jpg''] (1 / 5)).
             write_raises encoder_missing s = None"
    unfolding w by (simp add: encoder_missing_def utf8_writes_ascii lit_def)
  from list_file_left_behind [OF d o, where fmt = "\<lambda>d. lit ''0.2''" and fs = Map.empty
      and photos_dir = "lit ''/p''" and photos = "[lit ''a.jpg'']", THEN conjunct2, THEN mp, OF u]
  show ?thesis
    unfolding j w by simp
qed

end
